theory Spec2Isabelle
  imports Complex_Main
begin

section \<open>Numbers with uncertainties\<close>

text \<open>
  \<^verbatim>\<open>estimate_fake_sum\<close> (VHiggs/test/plotting/analysis.py) computes with the values of
  the \<^verbatim>\<open>uncertainties\<close> package, release 1.x (the source calls \<^verbatim>\<open>ufloat((nominal, std))\<close>
  and \<^verbatim>\<open>std_dev()\<close>). The package is an external dependency, not code of the repository;
  the part the estimator uses is modelled here as the package implements it: linear
  error propagation, in which a number is an affine function of independent random
  variables, kept as its nominal value and a dictionary from variable to partial
  derivative. Two numbers are correlated exactly when their dictionaries share a
  variable.

  Python floats are modelled as real numbers: rounding, infinities and NaN are outside
  the model. What the model keeps of float arithmetic are its exceptions: \<^verbatim>\<open>math.sqrt\<close>
  of a negative number raises \<^verbatim>\<open>ValueError\<close>, division by zero raises
  \<^verbatim>\<open>ZeroDivisionError\<close>.
\<close>

datatype error = ValueError | ZeroDivisionError

text \<open>
  A \<^verbatim>\<open>Variable\<close> is a Python object, one per call of \<^verbatim>\<open>ufloat\<close>, and the derivative
  dictionaries are keyed by object identity. The identity is the field \<open>var_id\<close>, taken
  from a counter of the objects allocated so far, which every allocating function
  receives and returns.
\<close>

record variable =
  var_id :: nat
  var_std_dev :: real

record AffineScalarFunc =
  nominal_value :: real
  derivatives :: "(variable \<times> real) list"

text \<open>\<^verbatim>\<open>ufloat((nominal, std))\<close>: a new variable, whose derivative by itself is 1.\<close>

definition ufloat :: "real \<Rightarrow> real \<Rightarrow> nat \<Rightarrow> AffineScalarFunc \<times> nat" where
  "ufloat nominal std k =
     (\<lparr>nominal_value = nominal,
       derivatives = [(\<lparr>var_id = k, var_std_dev = std\<rparr>, 1)]\<rparr>, Suc k)"

text \<open>\<^verbatim>\<open>to_affine_scalar\<close> on a plain number: a constant, with no derivative.\<close>

definition to_affine_scalar :: "real \<Rightarrow> AffineScalarFunc" where
  "to_affine_scalar x = \<lparr>nominal_value = x, derivatives = []\<rparr>"

text \<open>\<^verbatim>\<open>derivatives_wrt_vars[var] += x\<close>, on a dictionary whose missing entries are 0.\<close>

fun add_derivative :: "variable \<Rightarrow> real \<Rightarrow> (variable \<times> real) list \<Rightarrow> (variable \<times> real) list" where
  "add_derivative var x [] = [(var, 0 + x)]"
| "add_derivative var x ((w, d) # ds) =
     (if w = var then (w, d + x) # ds else (w, d) # add_derivative var x ds)"

text \<open>
  The chain rule of \<^verbatim>\<open>wrap\<close>: every derivative of an argument, times the partial
  derivative of the operation by that argument, is added to the entry of its variable.
\<close>

definition chain_rule :: "real \<Rightarrow> AffineScalarFunc \<Rightarrow> (variable \<times> real) list \<Rightarrow> (variable \<times> real) list" where
  "chain_rule f_derivative func acc =
     fold (\<lambda>(var, func_derivative). add_derivative var (f_derivative * func_derivative))
       (derivatives func) acc"

text \<open>
  A wrapped binary operation \<open>f\<close> with partial derivatives \<open>dx\<close> and \<open>dy\<close>. The
  partial derivative by a constant argument is not evaluated: it is 0. (On two constants
  the package returns a plain float; the estimator never applies an operation to two
  constants, each of its operations has an argument that depends on a variable.)
\<close>

definition wrap ::
  "(real \<Rightarrow> real \<Rightarrow> real) \<Rightarrow> (real \<Rightarrow> real \<Rightarrow> real) \<Rightarrow> (real \<Rightarrow> real \<Rightarrow> real) \<Rightarrow>
   AffineScalarFunc \<Rightarrow> AffineScalarFunc \<Rightarrow> AffineScalarFunc" where
  "wrap f dx dy a b =
     (let x = nominal_value a; y = nominal_value b;
          derivatives_wrt_args =
            [if derivatives a = [] then 0 else dx x y,
             if derivatives b = [] then 0 else dy x y]
      in \<lparr>nominal_value = f x y,
          derivatives =
            chain_rule (derivatives_wrt_args ! 1) b
              (chain_rule (derivatives_wrt_args ! 0) a [])\<rparr>)"

definition uadd :: "AffineScalarFunc \<Rightarrow> AffineScalarFunc \<Rightarrow> AffineScalarFunc" where
  "uadd = wrap (\<lambda>x y. x + y) (\<lambda>x y. 1) (\<lambda>x y. 1)"

definition usub :: "AffineScalarFunc \<Rightarrow> AffineScalarFunc \<Rightarrow> AffineScalarFunc" where
  "usub = wrap (\<lambda>x y. x - y) (\<lambda>x y. 1) (\<lambda>x y. - 1)"

definition umul :: "AffineScalarFunc \<Rightarrow> AffineScalarFunc \<Rightarrow> AffineScalarFunc" where
  "umul = wrap (\<lambda>x y. x * y) (\<lambda>x y. y) (\<lambda>x y. x)"

text \<open>Division: the float division of the nominal values raises when the divisor is 0.\<close>

definition udiv :: "AffineScalarFunc \<Rightarrow> AffineScalarFunc \<Rightarrow> error + AffineScalarFunc" where
  "udiv a b =
     (if nominal_value b = 0 then Inl ZeroDivisionError
      else Inr (wrap (\<lambda>x y. x / y) (\<lambda>x y. 1 / y) (\<lambda>x y. - x / y\<^sup>2) a b))"

text \<open>
  \<^verbatim>\<open>std_dev()\<close>: the square root of the sum of the squared error components, the
  component of a variable being \<^verbatim>\<open>abs(derivative * variable._std_dev)\<close>.
\<close>

definition error_components :: "AffineScalarFunc \<Rightarrow> real list" where
  "error_components a = map (\<lambda>(var, derivative). \<bar>derivative * var_std_dev var\<bar>) (derivatives a)"

definition std_dev :: "AffineScalarFunc \<Rightarrow> real" where
  "std_dev a = sqrt (\<Sum>delta\<leftarrow>error_components a. delta\<^sup>2)"

section \<open>The fake-rate estimate\<close>

text \<open>
  The dictionary of one fake object type. The keys \<^verbatim>\<open>'123'\<close> and \<^verbatim>\<open>'123en'\<close> are
  the fields \<open>n123\<close> and \<open>n123en\<close>. The values are bin contents of histograms: floats.
\<close>

record fakerate =
  en :: real
  ewk_s :: real
  qcd_s :: real
  n123 :: real
  n123en :: real

text \<open>\<^verbatim>\<open>ufloat((1.0, math.sqrt(number)/number))\<close>\<close>

definition get_rel_counting_err :: "real \<Rightarrow> nat \<Rightarrow> error + (AffineScalarFunc \<times> nat)" where
  "get_rel_counting_err number k =
     (if number < 0 then Inl ValueError
      else if number = 0 then Inl ZeroDivisionError
      else Inr (ufloat 1.0 (sqrt number / number) k))"

text \<open>The local \<^verbatim>\<open>qcd_fraction\<close> of \<^verbatim>\<open>compute_errors\<close>.\<close>

definition qcd_fraction :: "fakerate \<Rightarrow> AffineScalarFunc \<Rightarrow> AffineScalarFunc \<Rightarrow> error + AffineScalarFunc" where
  "qcd_fraction fr enriched_region_error qcd_in_enriched_region_error =
     udiv (umul (to_affine_scalar (n123 fr)) qcd_in_enriched_region_error)
          (umul (to_affine_scalar (en fr)) enriched_region_error)"

definition compute_errors :: "fakerate \<Rightarrow> nat \<Rightarrow> error + (AffineScalarFunc \<times> nat)" where
  "compute_errors fr k =
     (if en fr = 0 then Inr (ufloat 0 0 k)
      else case get_rel_counting_err (en fr) k of
        Inl e \<Rightarrow> Inl e
      | Inr (enriched_region_error, k1) \<Rightarrow>
          (case get_rel_counting_err (n123en fr) k1 of
             Inl e \<Rightarrow> Inl e
           | Inr (qcd_in_enriched_region_error, k2) \<Rightarrow>
               (case qcd_fraction fr enriched_region_error qcd_in_enriched_region_error of
                  Inl e \<Rightarrow> Inl e
                | Inr qcd_frac \<Rightarrow>
                    Inr (umul enriched_region_error
                           (uadd (umul (usub (to_affine_scalar 1) qcd_frac)
                                       (to_affine_scalar (ewk_s fr)))
                                 (umul qcd_frac (to_affine_scalar (qcd_s fr)))),
                         k2))))"

text \<open>
  The local \<^verbatim>\<open>double_est\<close> of \<^verbatim>\<open>estimate_fake_sum\<close>: the integer 0, or
  \<^verbatim>\<open>fr12s*get_rel_counting_err(fr12en)\<close>.
\<close>

definition double_est :: "real \<Rightarrow> real \<Rightarrow> nat \<Rightarrow> error + (AffineScalarFunc \<times> nat)" where
  "double_est fr12s fr12en k =
     (if fr12en = 0 then Inr (to_affine_scalar 0, k)
      else case get_rel_counting_err fr12en k of
        Inl e \<Rightarrow> Inl e
      | Inr (err, k1) \<Rightarrow> Inr (umul (to_affine_scalar fr12s) err, k1))"

text \<open>
  \<^verbatim>\<open>estimate_fake_sum(fr1, fr2, fr12s, fr12en)\<close>, with \<open>k\<close> the number of variables
  allocated before the call. The result is the returned number or the exception raised.
\<close>

definition estimate_fake_sum ::
  "fakerate \<Rightarrow> fakerate \<Rightarrow> real \<Rightarrow> real \<Rightarrow> nat \<Rightarrow> error + AffineScalarFunc" where
  "estimate_fake_sum fr1 fr2 fr12s fr12en k =
     (case compute_errors fr1 k of
        Inl e \<Rightarrow> Inl e
      | Inr (fake1est, k1) \<Rightarrow>
          (case compute_errors fr2 k1 of
             Inl e \<Rightarrow> Inl e
           | Inr (fake2est, k2) \<Rightarrow>
               (case double_est fr12s fr12en k2 of
                  Inl e \<Rightarrow> Inl e
                | Inr (dbl, k3) \<Rightarrow> Inr (usub (uadd fake1est fake2est) dbl))))"

text \<open>
  The caller, in the loop over the bins of the driver: the bin content is
  \<^verbatim>\<open>max(0, total_yield.nominal_value)\<close>, the bin error \<^verbatim>\<open>total_yield.std_dev()\<close>.
\<close>

definition fill_bin :: "AffineScalarFunc \<Rightarrow> real \<times> real" where
  "fill_bin total_yield = (max 0 (nominal_value total_yield), std_dev total_yield)"

text \<open>The two attributes the caller reads from the result.\<close>

definition value_and_error :: "AffineScalarFunc \<Rightarrow> real \<times> real" where
  "value_and_error a = (nominal_value a, std_dev a)"

section \<open>Auxiliary notions\<close>

text \<open>The sum under the square root of \<open>std_dev\<close>, on a dictionary of derivatives.\<close>

definition variance :: "(variable \<times> real) list \<Rightarrow> real" where
  "variance ds = (\<Sum>(var, d)\<leftarrow>ds. \<bar>d * var_std_dev var\<bar>\<^sup>2)"

text \<open>
  The number \<open>a\<close> depends only on variables allocated while the counter went from \<open>k\<close>
  to \<open>k'\<close>, and its dictionary has one entry for each.
\<close>

definition allocated_in :: "AffineScalarFunc \<Rightarrow> nat \<Rightarrow> nat \<Rightarrow> bool" where
  "allocated_in a k k' \<longleftrightarrow>
     k \<le> k' \<and> distinct (map fst (derivatives a)) \<and>
     (\<forall>v \<in> fst ` set (derivatives a). k \<le> var_id v \<and> var_id v < k')"

section \<open>Error propagation over independent variables\<close>

lemmas uf_defs = ufloat_def to_affine_scalar_def wrap_def chain_rule_def uadd_def usub_def
  umul_def udiv_def get_rel_counting_err_def qcd_fraction_def

lemma std_dev_variance: "std_dev a = sqrt (variance (derivatives a))"
  by (simp add: std_dev_def error_components_def variance_def comp_def case_prod_unfold)

lemma variance_nonneg: "0 \<le> variance ds"
  unfolding variance_def by (induction ds) auto

lemma std_dev_nonneg: "0 \<le> std_dev a"
  by (simp add: std_dev_variance variance_nonneg)

lemma variance_append: "variance (xs @ ys) = variance xs + variance ys"
  by (simp add: variance_def)

lemma variance_scale: "variance (map (\<lambda>(v, d). (v, c * d)) ds) = c\<^sup>2 * variance ds"
  unfolding variance_def
  by (induction ds) (auto simp: distrib_left power_mult_distrib abs_mult mult.assoc)

lemma variance_uminus: "variance (map (\<lambda>(v, d). (v, - d)) ds) = variance ds"
  unfolding variance_def by (induction ds) auto

text \<open>An entry for a variable the dictionary does not have yet goes to its end.\<close>

lemma add_derivative_fresh:
  "var \<notin> fst ` set ds \<Longrightarrow> add_derivative var x ds = ds @ [(var, x)]"
  by (induction ds) auto

lemma fold_add_derivative_fresh:
  "distinct (map fst xs) \<Longrightarrow> fst ` set xs \<inter> fst ` set acc = {} \<Longrightarrow>
   fold (\<lambda>(var, d). add_derivative var (c * d)) xs acc = acc @ map (\<lambda>(v, d). (v, c * d)) xs"
proof (induction xs arbitrary: acc)
  case Nil
  then show ?case by simp
next
  case (Cons p xs)
  obtain v d where p: "p = (v, d)" by (cases p)
  from Cons.prems p have fresh: "v \<notin> fst ` set acc" by auto
  have "fst ` set xs \<inter> fst ` set (acc @ [(v, c * d)]) = {}"
    using Cons.prems p by auto
  with Cons.IH [of "acc @ [(v, c * d)]"] Cons.prems
  have "fold (\<lambda>(var, d). add_derivative var (c * d)) xs (acc @ [(v, c * d)])
        = (acc @ [(v, c * d)]) @ map (\<lambda>(v, d). (v, c * d)) xs"
    by simp
  then show ?case using p fresh by (simp add: add_derivative_fresh)
qed

text \<open>
  On two numbers that share no variable, a wrapped operation scales the two
  dictionaries by its partial derivatives and puts them side by side.
\<close>

lemma wrap_uncorrelated:
  assumes "distinct (map fst (derivatives a))" "distinct (map fst (derivatives b))"
    and "fst ` set (derivatives a) \<inter> fst ` set (derivatives b) = {}"
  shows "derivatives (wrap f dx dy a b) =
           map (\<lambda>(v, d). (v, dx (nominal_value a) (nominal_value b) * d)) (derivatives a) @
           map (\<lambda>(v, d). (v, dy (nominal_value a) (nominal_value b) * d)) (derivatives b)"
proof -
  let ?ca = "if derivatives a = [] then 0 else dx (nominal_value a) (nominal_value b)"
  let ?cb = "if derivatives b = [] then 0 else dy (nominal_value a) (nominal_value b)"
  have a: "chain_rule ?ca a [] = map (\<lambda>(v, d). (v, ?ca * d)) (derivatives a)"
    unfolding chain_rule_def using fold_add_derivative_fresh [OF assms(1), of "[]" ?ca] by simp
  have a': "map (\<lambda>(v, d). (v, ?ca * d)) (derivatives a)
          = map (\<lambda>(v, d). (v, dx (nominal_value a) (nominal_value b) * d)) (derivatives a)"
    by simp
  have disj: "fst ` set (derivatives b) \<inter> fst ` set (chain_rule ?ca a []) = {}"
    unfolding a using assms(3) by (force simp: image_iff)
  have b: "chain_rule ?cb b (chain_rule ?ca a [])
          = chain_rule ?ca a [] @ map (\<lambda>(v, d). (v, ?cb * d)) (derivatives b)"
    unfolding chain_rule_def [of ?cb]
    using fold_add_derivative_fresh [OF assms(2) disj, of ?cb] by simp
  have b': "map (\<lambda>(v, d). (v, ?cb * d)) (derivatives b)
          = map (\<lambda>(v, d). (v, dy (nominal_value a) (nominal_value b) * d)) (derivatives b)"
    by simp
  show ?thesis
    unfolding wrap_def Let_def using a a' b b' by simp
qed

lemma wrap_uncorrelated_vars:
  assumes "distinct (map fst (derivatives a))" "distinct (map fst (derivatives b))"
    and "fst ` set (derivatives a) \<inter> fst ` set (derivatives b) = {}"
  shows "map fst (derivatives (wrap f dx dy a b)) = map fst (derivatives a) @ map fst (derivatives b)"
  by (simp add: wrap_uncorrelated [OF assms] comp_def case_prod_unfold)

text \<open>Sums and differences of uncorrelated numbers: the errors add in quadrature.\<close>

lemma std_dev_uadd_uncorrelated:
  assumes "distinct (map fst (derivatives a))" "distinct (map fst (derivatives b))"
    and "fst ` set (derivatives a) \<inter> fst ` set (derivatives b) = {}"
  shows "(std_dev (uadd a b))\<^sup>2 = (std_dev a)\<^sup>2 + (std_dev b)\<^sup>2"
  by (simp add: std_dev_variance uadd_def wrap_uncorrelated [OF assms] variance_append
      variance_scale variance_nonneg)

lemma std_dev_usub_uncorrelated:
  assumes "distinct (map fst (derivatives a))" "distinct (map fst (derivatives b))"
    and "fst ` set (derivatives a) \<inter> fst ` set (derivatives b) = {}"
  shows "(std_dev (usub a b))\<^sup>2 = (std_dev a)\<^sup>2 + (std_dev b)\<^sup>2"
  by (simp add: std_dev_variance usub_def wrap_uncorrelated [OF assms] variance_append
      variance_uminus variance_nonneg)

lemma allocated_in_disjoint:
  assumes "allocated_in a k k1" "allocated_in b k1 k2"
  shows "fst ` set (derivatives a) \<inter> fst ` set (derivatives b) = {}"
proof (rule ccontr)
  assume "fst ` set (derivatives a) \<inter> fst ` set (derivatives b) \<noteq> {}"
  then obtain v where "v \<in> fst ` set (derivatives a)" "v \<in> fst ` set (derivatives b)" by auto
  then have "var_id v < k1" "k1 \<le> var_id v"
    using assms unfolding allocated_in_def by blast+
  then show False by simp
qed

lemma allocated_in_uadd:
  assumes "allocated_in a k k1" "allocated_in b k1 k2"
  shows "allocated_in (uadd a b) k k2"
proof -
  have d: "fst ` set (derivatives a) \<inter> fst ` set (derivatives b) = {}"
    by (rule allocated_in_disjoint [OF assms])
  have da: "distinct (map fst (derivatives a))" and db: "distinct (map fst (derivatives b))"
    using assms by (simp_all add: allocated_in_def)
  have vars: "map fst (derivatives (uadd a b)) = map fst (derivatives a) @ map fst (derivatives b)"
    unfolding uadd_def by (rule wrap_uncorrelated_vars [OF da db d])
  have "set (map fst (derivatives (uadd a b))) = fst ` set (derivatives a) \<union> fst ` set (derivatives b)"
    unfolding vars by simp
  then have s: "fst ` set (derivatives (uadd a b)) = fst ` set (derivatives a) \<union> fst ` set (derivatives b)"
    by simp
  have "distinct (map fst (derivatives (uadd a b)))"
    unfolding vars using da db d by simp
  moreover have "\<forall>v \<in> fst ` set (derivatives (uadd a b)). k \<le> var_id v \<and> var_id v < k2"
    unfolding s using assms unfolding allocated_in_def by fastforce
  moreover have "k \<le> k2" using assms by (simp add: allocated_in_def)
  ultimately show ?thesis by (simp add: allocated_in_def)
qed

section \<open>What each part of the estimator returns\<close>

lemma compute_errors_zero:
  "en fr = 0 \<Longrightarrow> compute_errors fr k =
     Inr (\<lparr>nominal_value = 0, derivatives = [(\<lparr>var_id = k, var_std_dev = 0\<rparr>, 1)]\<rparr>, Suc k)"
  by (simp add: compute_errors_def ufloat_def)

lemma compute_errors_pos:
  assumes "0 < en fr" "0 < n123en fr"
  shows "compute_errors fr k =
     Inr (\<lparr>nominal_value = (1 - n123 fr / en fr) * ewk_s fr + n123 fr / en fr * qcd_s fr,
           derivatives =
             [(\<lparr>var_id = k, var_std_dev = sqrt (en fr) / en fr\<rparr>, ewk_s fr),
              (\<lparr>var_id = Suc k, var_std_dev = sqrt (n123en fr) / n123en fr\<rparr>,
               (qcd_s fr - ewk_s fr) * (n123 fr / en fr))]\<rparr>, Suc (Suc k))"
  using assms
  apply (simp add: compute_errors_def uf_defs Let_def)
  apply (simp add: field_simps power2_eq_square)
  done

lemma compute_errors_raises:
  "en fr < 0 \<Longrightarrow> compute_errors fr k = Inl ValueError"
  "0 < en fr \<Longrightarrow> n123en fr < 0 \<Longrightarrow> compute_errors fr k = Inl ValueError"
  "0 < en fr \<Longrightarrow> n123en fr = 0 \<Longrightarrow> compute_errors fr k = Inl ZeroDivisionError"
  by (simp_all add: compute_errors_def get_rel_counting_err_def ufloat_def)

lemma double_est_zero: "double_est fr12s 0 k = Inr (\<lparr>nominal_value = 0, derivatives = []\<rparr>, k)"
  by (simp add: double_est_def to_affine_scalar_def)

lemma double_est_pos:
  "0 < fr12en \<Longrightarrow> double_est fr12s fr12en k =
     Inr (\<lparr>nominal_value = fr12s,
           derivatives = [(\<lparr>var_id = k, var_std_dev = sqrt fr12en / fr12en\<rparr>, fr12s)]\<rparr>, Suc k)"
  by (simp add: double_est_def uf_defs Let_def)

lemma double_est_neg: "fr12en < 0 \<Longrightarrow> double_est fr12s fr12en k = Inl ValueError"
  by (simp add: double_est_def get_rel_counting_err_def)

lemma compute_errors_allocated:
  assumes "compute_errors fr k = Inr (a, k')"
  shows "allocated_in a k k'"
proof -
  consider "en fr = 0" | "en fr < 0" | "0 < en fr" "n123en fr < 0" | "0 < en fr" "n123en fr = 0"
    | "0 < en fr" "0 < n123en fr"
    by linarith
  then show ?thesis
  proof cases
    case 1
    with assms show ?thesis by (auto simp: compute_errors_zero allocated_in_def)
  next
    case 5
    with assms show ?thesis by (auto simp: compute_errors_pos allocated_in_def)
  qed (use assms in \<open>simp_all add: compute_errors_raises\<close>)
qed

lemma double_est_allocated:
  assumes "double_est fr12s fr12en k = Inr (a, k')"
  shows "allocated_in a k k'"
proof -
  consider "fr12en = 0" | "fr12en < 0" | "0 < fr12en" by linarith
  then show ?thesis
  proof cases
    case 1
    with assms show ?thesis by (auto simp: double_est_zero allocated_in_def)
  next
    case 2
    with assms show ?thesis by (simp add: double_est_neg)
  next
    case 3
    with assms show ?thesis by (auto simp: double_est_pos allocated_in_def)
  qed
qed

text \<open>
  The total of three contributions: they are built from variables allocated one after
  the other, so that no variable is shared between them.
\<close>

lemma estimate_fake_sum_parts:
  assumes "compute_errors fr1 k = Inr (fake1est, k1)"
    and "compute_errors fr2 k1 = Inr (fake2est, k2)"
    and "double_est fr12s fr12en k2 = Inr (dbl, k3)"
  shows "estimate_fake_sum fr1 fr2 fr12s fr12en k = Inr (usub (uadd fake1est fake2est) dbl)"
    and "nominal_value (usub (uadd fake1est fake2est) dbl) =
           nominal_value fake1est + nominal_value fake2est - nominal_value dbl"
    and "std_dev (usub (uadd fake1est fake2est) dbl) =
           sqrt ((std_dev fake1est)\<^sup>2 + (std_dev fake2est)\<^sup>2 + (std_dev dbl)\<^sup>2)"
proof -
  have a: "allocated_in fake1est k k1" by (rule compute_errors_allocated [OF assms(1)])
  have b: "allocated_in fake2est k1 k2" by (rule compute_errors_allocated [OF assms(2)])
  have c: "allocated_in dbl k2 k3" by (rule double_est_allocated [OF assms(3)])
  have ab: "allocated_in (uadd fake1est fake2est) k k2" by (rule allocated_in_uadd [OF a b])
  have s1: "(std_dev (uadd fake1est fake2est))\<^sup>2 = (std_dev fake1est)\<^sup>2 + (std_dev fake2est)\<^sup>2"
    using a b allocated_in_disjoint [OF a b]
    by (intro std_dev_uadd_uncorrelated) (simp_all add: allocated_in_def)
  have s2: "(std_dev (usub (uadd fake1est fake2est) dbl))\<^sup>2
          = (std_dev (uadd fake1est fake2est))\<^sup>2 + (std_dev dbl)\<^sup>2"
    using ab c allocated_in_disjoint [OF ab c]
    by (intro std_dev_usub_uncorrelated) (simp_all add: allocated_in_def)
  have "std_dev (usub (uadd fake1est fake2est) dbl)
        = sqrt ((std_dev (usub (uadd fake1est fake2est) dbl))\<^sup>2)"
    using std_dev_nonneg [of "usub (uadd fake1est fake2est) dbl"] by simp
  also have "\<dots> = sqrt ((std_dev fake1est)\<^sup>2 + (std_dev fake2est)\<^sup>2 + (std_dev dbl)\<^sup>2)"
    by (simp only: s1 s2)
  finally show "std_dev (usub (uadd fake1est fake2est) dbl)
        = sqrt ((std_dev fake1est)\<^sup>2 + (std_dev fake2est)\<^sup>2 + (std_dev dbl)\<^sup>2)" .
  show "nominal_value (usub (uadd fake1est fake2est) dbl)
        = nominal_value fake1est + nominal_value fake2est - nominal_value dbl"
    by (simp add: usub_def uadd_def wrap_def Let_def)
  show "estimate_fake_sum fr1 fr2 fr12s fr12en k = Inr (usub (uadd fake1est fake2est) dbl)"
    using assms by (simp add: estimate_fake_sum_def)
qed

text \<open>The estimator returns exactly when each part does.\<close>

lemma compute_errors_returns_iff:
  "(\<exists>a k'. compute_errors fr k = Inr (a, k')) \<longleftrightarrow> en fr = 0 \<or> (0 < en fr \<and> 0 < n123en fr)"
proof -
  consider "en fr = 0" | "en fr < 0" | "0 < en fr" "n123en fr < 0" | "0 < en fr" "n123en fr = 0"
    | "0 < en fr" "0 < n123en fr"
    by linarith
  then show ?thesis
    by cases (simp_all add: compute_errors_zero compute_errors_pos compute_errors_raises)
qed

lemma double_est_returns_iff:
  "(\<exists>a k'. double_est fr12s fr12en k = Inr (a, k')) \<longleftrightarrow> 0 \<le> fr12en"
proof -
  consider "fr12en = 0" | "fr12en < 0" | "0 < fr12en" by linarith
  then show ?thesis
    by cases (simp_all add: double_est_zero double_est_pos double_est_neg)
qed

section \<open>Further facts used by the claims\<close>

text \<open>Nominal value and standard deviation do not depend on which variables are allocated.\<close>

lemma compute_errors_counter_free:
  "map_sum id (value_and_error \<circ> fst) (compute_errors fr k) =
   map_sum id (value_and_error \<circ> fst) (compute_errors fr j)"
proof -
  consider "en fr = 0" | "en fr < 0" | "0 < en fr" "n123en fr < 0" | "0 < en fr" "n123en fr = 0"
    | "0 < en fr" "0 < n123en fr"
    by linarith
  then show ?thesis
    by cases (simp_all add: compute_errors_zero compute_errors_pos compute_errors_raises
        value_and_error_def std_dev_def error_components_def)
qed

lemma double_est_counter_free:
  "map_sum id (value_and_error \<circ> fst) (double_est fr12s fr12en k) =
   map_sum id (value_and_error \<circ> fst) (double_est fr12s fr12en j)"
proof -
  consider "fr12en = 0" | "fr12en < 0" | "0 < fr12en" by linarith
  then show ?thesis
    by cases (simp_all add: double_est_zero double_est_pos double_est_neg
        value_and_error_def std_dev_def error_components_def)
qed

lemma estimate_fake_sum_propagates:
  "compute_errors fr1 k = Inl e \<Longrightarrow> estimate_fake_sum fr1 fr2 fr12s fr12en k = Inl e"
  "compute_errors fr1 k = Inr (a, k1) \<Longrightarrow> compute_errors fr2 k1 = Inl e \<Longrightarrow>
     estimate_fake_sum fr1 fr2 fr12s fr12en k = Inl e"
  "compute_errors fr1 k = Inr (a, k1) \<Longrightarrow> compute_errors fr2 k1 = Inr (b, k2) \<Longrightarrow>
     double_est fr12s fr12en k2 = Inl e \<Longrightarrow> estimate_fake_sum fr1 fr2 fr12s fr12en k = Inl e"
  by (simp_all add: estimate_fake_sum_def)

lemma std_dev_simps:
  "std_dev \<lparr>nominal_value = x, derivatives = []\<rparr> = 0"
  "std_dev \<lparr>nominal_value = x, derivatives = [(v, d)]\<rparr> = \<bar>d * var_std_dev v\<bar>"
  "std_dev \<lparr>nominal_value = x, derivatives = [(v, d), (w, c)]\<rparr>
     = sqrt ((d * var_std_dev v)\<^sup>2 + (c * var_std_dev w)\<^sup>2)"
  by (simp_all add: std_dev_def error_components_def)


lemma std_dev_pair_squared:
  "(std_dev \<lparr>nominal_value = x, derivatives = [(v, d), (w, c)]\<rparr>)\<^sup>2
     = d\<^sup>2 * (var_std_dev v)\<^sup>2 + c\<^sup>2 * (var_std_dev w)\<^sup>2"
  by (simp add: std_dev_simps power_mult_distrib)

lemma scenario_parts:
  assumes "en fr2 = 0"
  shows "map_sum id value_and_error
      (estimate_fake_sum \<lparr>en = 100, ewk_s = 10, qcd_s = 20, n123 = 5, n123en = 50\<rparr> fr2 0 0 k)
      = Inr (21 / 2, sqrt (201 / 200))"
proof -
  let ?fr1 = "\<lparr>en = 100, ewk_s = 10, qcd_s = 20, n123 = 5, n123en = 50\<rparr>"
  have p1: "0 < en ?fr1" "0 < n123en ?fr1" by simp_all
  obtain a where ca: "compute_errors ?fr1 k = Inr (a, Suc (Suc k))"
    and a: "a = \<lparr>nominal_value = 21 / 2,
                 derivatives = [(\<lparr>var_id = k, var_std_dev = sqrt 100 / 100\<rparr>, 10),
                                (\<lparr>var_id = Suc k, var_std_dev = sqrt 50 / 50\<rparr>, 1 / 2)]\<rparr>"
    using compute_errors_pos [OF p1, of k] by simp
  obtain b where cb: "compute_errors fr2 (Suc (Suc k)) = Inr (b, Suc (Suc (Suc k)))"
    and b: "b = \<lparr>nominal_value = 0,
                 derivatives = [(\<lparr>var_id = Suc (Suc k), var_std_dev = 0\<rparr>, 1)]\<rparr>"
    using compute_errors_zero [OF assms] by simp
  obtain d where cd: "double_est 0 0 (Suc (Suc (Suc k))) = Inr (d, Suc (Suc (Suc k)))"
    and d: "d = \<lparr>nominal_value = 0, derivatives = []\<rparr>"
    using double_est_zero by simp
  have sa: "(std_dev a)\<^sup>2 = 201 / 200"
    unfolding a std_dev_pair_squared by (simp add: power_divide)
  have sb: "std_dev b = 0" by (simp add: b std_dev_simps)
  have sd: "std_dev d = 0" by (simp add: d std_dev_simps)
  have na: "nominal_value a = 21 / 2" by (simp add: a)
  have nb: "nominal_value b = 0" by (simp add: b)
  have nd: "nominal_value d = 0" by (simp add: d)
  show ?thesis
    using estimate_fake_sum_parts [OF ca cb cd]
    by (simp add: value_and_error_def sa sb sd na nb nd)
qed

section \<open>The claims\<close>

text \<open>
  C1, as the specification states it: an input with a negative count or estimate is
  rejected, and a negative \<^verbatim>\<open>double_signal_estimate\<close> raises. The estimator checks
  nothing: with both regions empty, a double signal estimate of -1 and a double enriched
  count of 4 it returns 1 with standard deviation 1/2.
\<close>

theorem negative_double_signal_estimate_counterexample:
  "map_sum id value_and_error
     (estimate_fake_sum \<lparr>en = 0, ewk_s = 0, qcd_s = 0, n123 = 0, n123en = 0\<rparr>
        \<lparr>en = 0, ewk_s = 0, qcd_s = 0, n123 = 0, n123en = 0\<rparr> (- 1) 4 0) = Inr (1, 1 / 2)"
proof -
  let ?z = "\<lparr>en = 0, ewk_s = 0, qcd_s = 0, n123 = 0, n123en = 0\<rparr>"
  let ?zero = "\<lambda>j. \<lparr>nominal_value = 0, derivatives = [(\<lparr>var_id = j, var_std_dev = 0\<rparr>, 1)]\<rparr>"
  have 1: "compute_errors ?z 0 = Inr (?zero 0, Suc 0)"
    by (simp add: compute_errors_zero)
  have 2: "compute_errors ?z (Suc 0) = Inr (?zero (Suc 0), Suc (Suc 0))"
    by (simp add: compute_errors_zero)
  have 3: "double_est (- 1) 4 (Suc (Suc 0)) =
     Inr (\<lparr>nominal_value = - 1,
           derivatives = [(\<lparr>var_id = Suc (Suc 0), var_std_dev = sqrt 4 / 4\<rparr>, - 1)]\<rparr>,
          Suc (Suc (Suc 0)))"
    by (rule double_est_pos) simp
  show ?thesis
    using estimate_fake_sum_parts [OF 1 2 3]
    by (simp add: value_and_error_def std_dev_simps)
qed

text \<open>
  C1, amended. \<^verbatim>\<open>estimate_fake_sum\<close> raises exactly when a square root or a division of
  \<^verbatim>\<open>get_rel_counting_err\<close> fails: a region has a negative \<^verbatim>\<open>en\<close>, or a positive \<^verbatim>\<open>en\<close>
  with a \<^verbatim>\<open>123en\<close> that is negative or zero, or the double enriched count is negative.
  The values \<^verbatim>\<open>ewk_s\<close>, \<^verbatim>\<open>qcd_s\<close>, \<^verbatim>\<open>123\<close> and the double signal estimate play no part:
  negative ones are accepted.
\<close>

theorem estimate_fake_sum_raises_iff:
  "isl (estimate_fake_sum fr1 fr2 fr12s fr12en k) \<longleftrightarrow>
     (en fr1 < 0 \<or> (0 < en fr1 \<and> n123en fr1 \<le> 0)) \<or>
     (en fr2 < 0 \<or> (0 < en fr2 \<and> n123en fr2 \<le> 0)) \<or>
     fr12en < 0"
proof (cases "\<exists>a k1. compute_errors fr1 k = Inr (a, k1)")
  case False
  then obtain e where "compute_errors fr1 k = Inl e"
    by (cases "compute_errors fr1 k") auto
  then have "isl (estimate_fake_sum fr1 fr2 fr12s fr12en k)"
    by (simp add: estimate_fake_sum_propagates(1))
  moreover have "en fr1 < 0 \<or> (0 < en fr1 \<and> n123en fr1 \<le> 0)"
    using False compute_errors_returns_iff [of fr1 k] by force
  ultimately show ?thesis by simp
next
  case True
  then obtain a k1 where a: "compute_errors fr1 k = Inr (a, k1)" by blast
  have ok1: "\<not> (en fr1 < 0 \<or> (0 < en fr1 \<and> n123en fr1 \<le> 0))"
    using True compute_errors_returns_iff [of fr1 k] by force
  show ?thesis
  proof (cases "\<exists>b k2. compute_errors fr2 k1 = Inr (b, k2)")
    case False
    then obtain e where "compute_errors fr2 k1 = Inl e"
      by (cases "compute_errors fr2 k1") auto
    then have "isl (estimate_fake_sum fr1 fr2 fr12s fr12en k)"
      by (simp add: estimate_fake_sum_propagates(2) [OF a])
    moreover have "en fr2 < 0 \<or> (0 < en fr2 \<and> n123en fr2 \<le> 0)"
      using False compute_errors_returns_iff [of fr2 k1] by force
    ultimately show ?thesis by simp
  next
    case True
    then obtain b k2 where b: "compute_errors fr2 k1 = Inr (b, k2)" by blast
    have ok2: "\<not> (en fr2 < 0 \<or> (0 < en fr2 \<and> n123en fr2 \<le> 0))"
      using True compute_errors_returns_iff [of fr2 k1] by force
    show ?thesis
    proof (cases "fr12en < 0")
      case True
      then have "double_est fr12s fr12en k2 = Inl ValueError" by (rule double_est_neg)
      then show ?thesis
        using True by (simp add: estimate_fake_sum_propagates(3) [OF a b])
    next
      case False
      then obtain d k3 where d: "double_est fr12s fr12en k2 = Inr (d, k3)"
        using double_est_returns_iff [of fr12s fr12en k2] by force
      show ?thesis
        using False ok1 ok2 estimate_fake_sum_parts(1) [OF a b d] by simp
    qed
  qed
qed

theorem estimate_fake_sum_raises_iff_witness:
  "isl (estimate_fake_sum \<lparr>en = 0, ewk_s = 0, qcd_s = 0, n123 = 0, n123en = 0\<rparr>
          \<lparr>en = 0, ewk_s = 0, qcd_s = 0, n123 = 0, n123en = 0\<rparr> 1 (- 4) 0) \<and>
   \<not> isl (estimate_fake_sum \<lparr>en = 0, ewk_s = - 1, qcd_s = - 1, n123 = - 1, n123en = - 1\<rparr>
          \<lparr>en = 1, ewk_s = - 1, qcd_s = - 1, n123 = - 1, n123en = 1\<rparr> (- 1) 4 0)"
  using estimate_fake_sum_raises_iff
      [of "\<lparr>en = 0, ewk_s = 0, qcd_s = 0, n123 = 0, n123en = 0\<rparr>"
          "\<lparr>en = 0, ewk_s = 0, qcd_s = 0, n123 = 0, n123en = 0\<rparr>" 1 "- 4" 0]
    estimate_fake_sum_raises_iff
      [of "\<lparr>en = 0, ewk_s = - 1, qcd_s = - 1, n123 = - 1, n123en = - 1\<rparr>"
          "\<lparr>en = 1, ewk_s = - 1, qcd_s = - 1, n123 = - 1, n123en = 1\<rparr>" "- 1" 4 0]
  by simp





text \<open>
  C4, as the specification states it: in the scenario
  \<^verbatim>\<open>region1 = {en:100, ewk_s:10, qcd_s:20, 123:5, 123en:50}\<close>, region 2 and the double
  region empty, the nominal value is 11. The estimator returns 21/2.
\<close>

theorem scenario_nominal_value_counterexample:
  "map_sum id nominal_value
     (estimate_fake_sum \<lparr>en = 100, ewk_s = 10, qcd_s = 20, n123 = 5, n123en = 50\<rparr>
        \<lparr>en = 0, ewk_s = 0, qcd_s = 0, n123 = 0, n123en = 0\<rparr> 0 0 0) = Inr (21 / 2) \<and>
   map_sum id nominal_value
     (estimate_fake_sum \<lparr>en = 100, ewk_s = 10, qcd_s = 20, n123 = 5, n123en = 50\<rparr>
        \<lparr>en = 0, ewk_s = 0, qcd_s = 0, n123 = 0, n123en = 0\<rparr> 0 0 0) \<noteq> Inr 11"
proof -
  have z: "en \<lparr>en = 0, ewk_s = 0, qcd_s = 0, n123 = 0, n123en = 0\<rparr> = 0" by simp
  show ?thesis
    using scenario_parts [OF z, of 0] by (auto simp: value_and_error_def map_sum_def split: sum.splits)
qed

text \<open>
  C4, amended. In that scenario, whatever the other entries of the empty region 2:
  region 2 and the double region contribute 0 with error 0; the QCD fraction of region 1
  has the nominal value 5/100 = 1/20 (the count \<^verbatim>\<open>123en\<close> = 50 enters its error only); the
  region 1 estimate has the nominal value 0.95 * 10 + 0.05 * 20 = 21/2; the estimator
  returns the nominal value 21/2 with the standard deviation \<open>sqrt (201 / 200)\<close>, which
  is not zero.
\<close>

theorem scenario_end_to_end:
  assumes "en fr2 = 0"
  shows "map_sum id (value_and_error \<circ> fst) (compute_errors fr2 j) = Inr (0, 0) \<and>
    map_sum id (value_and_error \<circ> fst) (double_est 0 0 j) = Inr (0, 0) \<and>
    (\<exists>enriched_region_error k1 qcd_in_enriched_region_error k2.
       get_rel_counting_err 100 k = Inr (enriched_region_error, k1) \<and>
       get_rel_counting_err 50 k1 = Inr (qcd_in_enriched_region_error, k2) \<and>
       map_sum id nominal_value
         (qcd_fraction \<lparr>en = 100, ewk_s = 10, qcd_s = 20, n123 = 5, n123en = 50\<rparr>
            enriched_region_error qcd_in_enriched_region_error) = Inr (1 / 20)) \<and>
    map_sum id (nominal_value \<circ> fst)
      (compute_errors \<lparr>en = 100, ewk_s = 10, qcd_s = 20, n123 = 5, n123en = 50\<rparr> k) = Inr (21 / 2) \<and>
    map_sum id value_and_error
      (estimate_fake_sum \<lparr>en = 100, ewk_s = 10, qcd_s = 20, n123 = 5, n123en = 50\<rparr> fr2 0 0 k)
      = Inr (21 / 2, sqrt (201 / 200)) \<and>
    sqrt (201 / 200) \<noteq> 0"
proof (intro conjI)
  let ?fr1 = "\<lparr>en = 100, ewk_s = 10, qcd_s = 20, n123 = 5, n123en = 50\<rparr>"
  have p1: "0 < en ?fr1" "0 < n123en ?fr1" by simp_all
  show "map_sum id (value_and_error \<circ> fst) (compute_errors fr2 j) = Inr (0, 0)"
    using assms by (simp add: compute_errors_zero value_and_error_def std_dev_simps)
  show "map_sum id (value_and_error \<circ> fst) (double_est 0 0 j) = Inr (0, 0)"
    by (simp add: double_est_zero value_and_error_def std_dev_simps)
  show "\<exists>enriched_region_error k1 qcd_in_enriched_region_error k2.
       get_rel_counting_err 100 k = Inr (enriched_region_error, k1) \<and>
       get_rel_counting_err 50 k1 = Inr (qcd_in_enriched_region_error, k2) \<and>
       map_sum id nominal_value
         (qcd_fraction ?fr1 enriched_region_error qcd_in_enriched_region_error) = Inr (1 / 20)"
    by (simp add: uf_defs Let_def)
  show "map_sum id (nominal_value \<circ> fst) (compute_errors ?fr1 k) = Inr (21 / 2)"
    by (simp add: compute_errors_pos [OF p1])
  show "map_sum id value_and_error (estimate_fake_sum ?fr1 fr2 0 0 k) = Inr (21 / 2, sqrt (201 / 200))"
    by (rule scenario_parts [OF assms])
  show "sqrt (201 / 200) \<noteq> 0" by simp
qed

theorem scenario_end_to_end_witness:
  "map_sum id value_and_error
      (estimate_fake_sum \<lparr>en = 100, ewk_s = 10, qcd_s = 20, n123 = 5, n123en = 50\<rparr>
         \<lparr>en = 0, ewk_s = 7, qcd_s = 8, n123 = 9, n123en = 10\<rparr> 0 0 0)
      = Inr (21 / 2, sqrt (201 / 200))"
proof -
  have h: "en \<lparr>en = 0, ewk_s = 7, qcd_s = 8, n123 = 9, n123en = 10\<rparr> = 0" by simp
  show ?thesis
    using scenario_end_to_end [OF h, of 0 0] by simp
qed

text \<open>
  C5. A region whose enriched count is zero contributes the value 0 with the standard
  deviation 0, without an error; and when both regions and the double region have a zero
  enriched count, \<^verbatim>\<open>estimate_fake_sum\<close> returns the value 0 with the standard deviation 0.
\<close>

theorem zero_enriched_count_contributes_zero:
  "(en fr = 0 \<longrightarrow>
      map_sum id (value_and_error \<circ> fst) (compute_errors fr k) = Inr (0, 0)) \<and>
   (en fr1 = 0 \<and> en fr2 = 0 \<longrightarrow>
      map_sum id value_and_error (estimate_fake_sum fr1 fr2 fr12s 0 k) = Inr (0, 0))"
proof (intro conjI impI)
  assume "en fr = 0"
  then show "map_sum id (value_and_error \<circ> fst) (compute_errors fr k) = Inr (0, 0)"
    by (simp add: compute_errors_zero value_and_error_def std_dev_simps)
next
  assume z: "en fr1 = 0 \<and> en fr2 = 0"
  let ?zero = "\<lambda>j. \<lparr>nominal_value = 0, derivatives = [(\<lparr>var_id = j, var_std_dev = 0\<rparr>, 1)]\<rparr>"
  have 1: "compute_errors fr1 k = Inr (?zero k, Suc k)"
    using z by (simp add: compute_errors_zero)
  have 2: "compute_errors fr2 (Suc k) = Inr (?zero (Suc k), Suc (Suc k))"
    using z by (simp add: compute_errors_zero)
  have 3: "double_est fr12s 0 (Suc (Suc k))
           = Inr (\<lparr>nominal_value = 0, derivatives = []\<rparr>, Suc (Suc k))"
    by (rule double_est_zero)
  show "map_sum id value_and_error (estimate_fake_sum fr1 fr2 fr12s 0 k) = Inr (0, 0)"
    using estimate_fake_sum_parts [OF 1 2 3]
    by (simp add: value_and_error_def std_dev_simps)
qed

theorem zero_enriched_count_contributes_zero_witness:
  "map_sum id (value_and_error \<circ> fst)
     (compute_errors \<lparr>en = 0, ewk_s = 3, qcd_s = 4, n123 = 5, n123en = 6\<rparr> 0) = Inr (0, 0) \<and>
   map_sum id value_and_error
     (estimate_fake_sum \<lparr>en = 0, ewk_s = 3, qcd_s = 4, n123 = 5, n123en = 6\<rparr>
        \<lparr>en = 0, ewk_s = 1, qcd_s = 2, n123 = 0, n123en = 0\<rparr> 7 0 0) = Inr (0, 0)"
  using zero_enriched_count_contributes_zero
    [of "\<lparr>en = 0, ewk_s = 3, qcd_s = 4, n123 = 5, n123en = 6\<rparr>" 0
        "\<lparr>en = 0, ewk_s = 3, qcd_s = 4, n123 = 5, n123en = 6\<rparr>"
        "\<lparr>en = 0, ewk_s = 1, qcd_s = 2, n123 = 0, n123en = 0\<rparr>" 7]
  by simp

text \<open>
  C6. The double-object contribution is the constant 0, value and error, when the
  double enriched count is zero; when the count is positive it is the double signal
  estimate times the relative counting error \<open>1 \<plusminus> sqrt count / count\<close> of the count:
  the value is the double signal estimate, the error its absolute value times
  \<open>sqrt count / count\<close>.
\<close>

theorem double_est_contribution:
  "(fr12en = 0 \<longrightarrow>
      double_est fr12s fr12en k = Inr (to_affine_scalar 0, k) \<and>
      value_and_error (to_affine_scalar 0) = (0, 0)) \<and>
   (0 < fr12en \<longrightarrow>
      (\<exists>err k'. get_rel_counting_err fr12en k = Inr (err, k') \<and>
         value_and_error err = (1, sqrt fr12en / fr12en) \<and>
         double_est fr12s fr12en k = Inr (umul (to_affine_scalar fr12s) err, k') \<and>
         value_and_error (umul (to_affine_scalar fr12s) err)
           = (fr12s, \<bar>fr12s\<bar> * (sqrt fr12en / fr12en))))"
proof (intro conjI impI)
  assume "fr12en = 0"
  then show "double_est fr12s fr12en k = Inr (to_affine_scalar 0, k)"
    by (simp add: double_est_def)
next
  show "value_and_error (to_affine_scalar 0) = (0, 0)"
    by (simp add: value_and_error_def to_affine_scalar_def std_dev_simps)
next
  assume pos: "0 < fr12en"
  let ?err = "\<lparr>nominal_value = 1,
                derivatives = [(\<lparr>var_id = k, var_std_dev = sqrt fr12en / fr12en\<rparr>, 1)]\<rparr>"
  have g: "get_rel_counting_err fr12en k = Inr (?err, Suc k)"
    using pos by (simp add: get_rel_counting_err_def ufloat_def)
  have v: "value_and_error ?err = (1, sqrt fr12en / fr12en)"
    using pos by (simp add: value_and_error_def std_dev_simps)
  have d: "double_est fr12s fr12en k = Inr (umul (to_affine_scalar fr12s) ?err, Suc k)"
    using pos g by (simp add: double_est_def)
  have m: "value_and_error (umul (to_affine_scalar fr12s) ?err)
           = (fr12s, \<bar>fr12s\<bar> * (sqrt fr12en / fr12en))"
    using pos by (simp add: value_and_error_def uf_defs Let_def std_dev_simps abs_mult)
  show "\<exists>err k'. get_rel_counting_err fr12en k = Inr (err, k') \<and>
         value_and_error err = (1, sqrt fr12en / fr12en) \<and>
         double_est fr12s fr12en k = Inr (umul (to_affine_scalar fr12s) err, k') \<and>
         value_and_error (umul (to_affine_scalar fr12s) err)
           = (fr12s, \<bar>fr12s\<bar> * (sqrt fr12en / fr12en))"
    using g v d m by blast
qed

theorem double_est_contribution_witness:
  "map_sum id (value_and_error \<circ> fst) (double_est 6 0 0) = Inr (0, 0) \<and>
   map_sum id (value_and_error \<circ> fst) (double_est 6 4 0) = Inr (6, 3)"
proof -
  have "map_sum id (value_and_error \<circ> fst) (double_est 6 0 0) = Inr (0, 0)"
    using double_est_contribution [of 0 6 0] by simp
  moreover have "map_sum id (value_and_error \<circ> fst) (double_est 6 4 0) = Inr (6, 3)"
    using double_est_contribution [of 4 6 0] by auto
  ultimately show ?thesis by simp
qed

text \<open>
  C7. The number \<^verbatim>\<open>estimate_fake_sum\<close> returns carries the signed nominal value
  (region 1 plus region 2 minus double, which is negative when the double estimate is
  the larger part) and the standard deviation of that sum. The maximum with 0 is taken
  by the caller, on the bin content only; the bin error is the standard deviation as
  returned.
\<close>

theorem estimate_fake_sum_signed_value:
  assumes "compute_errors fr1 k = Inr (fake1est, k1)"
    and "compute_errors fr2 k1 = Inr (fake2est, k2)"
    and "double_est fr12s fr12en k2 = Inr (dbl, k3)"
  shows "map_sum id value_and_error (estimate_fake_sum fr1 fr2 fr12s fr12en k) =
           Inr (nominal_value fake1est + nominal_value fake2est - nominal_value dbl,
                sqrt ((std_dev fake1est)\<^sup>2 + (std_dev fake2est)\<^sup>2 + (std_dev dbl)\<^sup>2)) \<and>
         map_sum id fill_bin (estimate_fake_sum fr1 fr2 fr12s fr12en k) =
           Inr (max 0 (nominal_value fake1est + nominal_value fake2est - nominal_value dbl),
                sqrt ((std_dev fake1est)\<^sup>2 + (std_dev fake2est)\<^sup>2 + (std_dev dbl)\<^sup>2))"
  using estimate_fake_sum_parts [OF assms]
  by (simp add: value_and_error_def fill_bin_def)

theorem estimate_fake_sum_signed_value_witness:
  "map_sum id value_and_error
     (estimate_fake_sum \<lparr>en = 0, ewk_s = 0, qcd_s = 0, n123 = 0, n123en = 0\<rparr>
        \<lparr>en = 0, ewk_s = 0, qcd_s = 0, n123 = 0, n123en = 0\<rparr> 2 4 0) = Inr (- 2, 1) \<and>
   map_sum id fill_bin
     (estimate_fake_sum \<lparr>en = 0, ewk_s = 0, qcd_s = 0, n123 = 0, n123en = 0\<rparr>
        \<lparr>en = 0, ewk_s = 0, qcd_s = 0, n123 = 0, n123en = 0\<rparr> 2 4 0) = Inr (0, 1)"
proof -
  let ?z = "\<lparr>en = 0, ewk_s = 0, qcd_s = 0, n123 = 0, n123en = 0\<rparr>"
  let ?zero = "\<lambda>j. \<lparr>nominal_value = 0, derivatives = [(\<lparr>var_id = j, var_std_dev = 0\<rparr>, 1)]\<rparr>"
  have 1: "compute_errors ?z 0 = Inr (?zero 0, Suc 0)"
    by (simp add: compute_errors_zero)
  have 2: "compute_errors ?z (Suc 0) = Inr (?zero (Suc 0), Suc (Suc 0))"
    by (simp add: compute_errors_zero)
  have 3: "double_est 2 4 (Suc (Suc 0)) =
     Inr (\<lparr>nominal_value = 2,
           derivatives = [(\<lparr>var_id = Suc (Suc 0), var_std_dev = sqrt 4 / 4\<rparr>, 2)]\<rparr>, Suc (Suc (Suc 0)))"
    by (rule double_est_pos) simp
  show ?thesis
    using estimate_fake_sum_signed_value [OF 1 2 3]
    by (simp add: std_dev_simps)
qed

text \<open>
  C8. For regions whose counts \<^verbatim>\<open>en\<close> and \<^verbatim>\<open>123en\<close> are not negative, exchanging
  region 1 and region 2 changes nothing that can be observed of the result: the same
  nominal value and the same standard deviation, or the same exception. Equal regions
  are the special case in which the two calls are the same call.
\<close>

theorem estimate_fake_sum_swap:
  assumes "0 \<le> en fr1" "0 \<le> n123en fr1" "0 \<le> en fr2" "0 \<le> n123en fr2"
  shows "map_sum id value_and_error (estimate_fake_sum fr2 fr1 fr12s fr12en k) =
         map_sum id value_and_error (estimate_fake_sum fr1 fr2 fr12s fr12en k)"
proof -
  have raises: "compute_errors fr j = Inl ZeroDivisionError \<or> (\<exists>a j'. compute_errors fr j = Inr (a, j'))"
    if h: "0 \<le> en fr" "0 \<le> n123en fr" for fr j
  proof -
    consider "en fr = 0" | "0 < en fr" "n123en fr = 0" | "0 < en fr" "0 < n123en fr"
      using h by linarith
    then show ?thesis
      by cases (simp_all add: compute_errors_zero compute_errors_pos compute_errors_raises)
  qed
  show ?thesis
  proof (cases "(\<exists>a j'. compute_errors fr1 k = Inr (a, j')) \<and> (\<exists>b j'. compute_errors fr2 k = Inr (b, j'))")
    case False
    then have bad: "(\<forall>j. compute_errors fr1 j = Inl ZeroDivisionError) \<or> (\<forall>j. compute_errors fr2 j = Inl ZeroDivisionError)"
      using raises [OF assms(1,2)] raises [OF assms(3,4)] compute_errors_returns_iff
      by (metis Inl_Inr_False)
    have l: "estimate_fake_sum fr1 fr2 fr12s fr12en k = Inl ZeroDivisionError"
      using bad raises [OF assms(1,2), of k] estimate_fake_sum_propagates(1,2) by metis
    have r: "estimate_fake_sum fr2 fr1 fr12s fr12en k = Inl ZeroDivisionError"
      using bad raises [OF assms(3,4), of k] estimate_fake_sum_propagates(1,2) by metis
    show ?thesis by (simp add: l r)
  next
    case True
    then obtain a k1 where a: "compute_errors fr1 k = Inr (a, k1)" by blast
    from True compute_errors_returns_iff obtain b k2 where b: "compute_errors fr2 k1 = Inr (b, k2)"
      by blast
    from True obtain b' j1 where b': "compute_errors fr2 k = Inr (b', j1)" by blast
    from True compute_errors_returns_iff obtain a' j2 where a': "compute_errors fr1 j1 = Inr (a', j2)"
      by blast
    have va: "value_and_error a' = value_and_error a"
      using compute_errors_counter_free [of fr1 j1 k] a a' by simp
    have vb: "value_and_error b' = value_and_error b"
      using compute_errors_counter_free [of fr2 k k1] b b' by simp
    show ?thesis
    proof (cases "0 \<le> fr12en")
      case False
      then have "double_est fr12s fr12en k2 = Inl ValueError" "double_est fr12s fr12en j2 = Inl ValueError"
        by (simp_all add: double_est_neg)
      then show ?thesis
        using estimate_fake_sum_propagates(3) [OF a b] estimate_fake_sum_propagates(3) [OF b' a'] by simp
    next
      case True
      then obtain d k3 where d: "double_est fr12s fr12en k2 = Inr (d, k3)"
        using double_est_returns_iff [of fr12s fr12en k2] by blast
      from True obtain d' j3 where d': "double_est fr12s fr12en j2 = Inr (d', j3)"
        using double_est_returns_iff [of fr12s fr12en j2] by blast
      have vd: "value_and_error d' = value_and_error d"
        using double_est_counter_free [of fr12s fr12en j2 k2] d d' by simp
      show ?thesis
        using estimate_fake_sum_parts [OF a b d] estimate_fake_sum_parts [OF b' a' d'] va vb vd
        by (simp add: value_and_error_def add.commute)
    qed
  qed
qed

theorem estimate_fake_sum_swap_witness:
  "map_sum id value_and_error
     (estimate_fake_sum \<lparr>en = 0, ewk_s = 1, qcd_s = 1, n123 = 1, n123en = 1\<rparr>
        \<lparr>en = 4, ewk_s = 6, qcd_s = 14, n123 = 2, n123en = 1\<rparr> 2 4 0) =
   map_sum id value_and_error
     (estimate_fake_sum \<lparr>en = 4, ewk_s = 6, qcd_s = 14, n123 = 2, n123en = 1\<rparr>
        \<lparr>en = 0, ewk_s = 1, qcd_s = 1, n123 = 1, n123en = 1\<rparr> 2 4 0)"
  using estimate_fake_sum_swap
    [of "\<lparr>en = 4, ewk_s = 6, qcd_s = 14, n123 = 2, n123en = 1\<rparr>"
        "\<lparr>en = 0, ewk_s = 1, qcd_s = 1, n123 = 1, n123en = 1\<rparr>" 2 4 0]
  by simp



text \<open>
  C10, as stated: every input with a region of positive \<^verbatim>\<open>en\<close> and zero \<^verbatim>\<open>123en\<close> fails
  with a division by zero. When such a region is region 2 and region 1 has a negative
  \<^verbatim>\<open>en\<close>, region 1 is computed first and \<^verbatim>\<open>math.sqrt\<close> raises \<^verbatim>\<open>ValueError\<close>.
\<close>

theorem zero_123en_after_negative_en_counterexample:
  "estimate_fake_sum \<lparr>en = - 1, ewk_s = 0, qcd_s = 0, n123 = 0, n123en = 1\<rparr>
     \<lparr>en = 1, ewk_s = 0, qcd_s = 0, n123 = 0, n123en = 0\<rparr> 0 0 0 = Inl ValueError \<and>
   estimate_fake_sum \<lparr>en = - 1, ewk_s = 0, qcd_s = 0, n123 = 0, n123en = 1\<rparr>
     \<lparr>en = 1, ewk_s = 0, qcd_s = 0, n123 = 0, n123en = 0\<rparr> 0 0 0 \<noteq> Inl ZeroDivisionError"
proof -
  have "compute_errors \<lparr>en = - 1, ewk_s = 0, qcd_s = 0, n123 = 0, n123en = 1\<rparr> 0 = Inl ValueError"
    by (rule compute_errors_raises(1)) simp
  then show ?thesis
    by (simp add: estimate_fake_sum_propagates(1))
qed

text \<open>
  C10, amended. When region 1 has a positive \<^verbatim>\<open>en\<close> and a zero \<^verbatim>\<open>123en\<close>,
  \<^verbatim>\<open>estimate_fake_sum\<close> fails with \<^verbatim>\<open>ZeroDivisionError\<close>. When region 2 has, it fails
  too, and with \<^verbatim>\<open>ZeroDivisionError\<close> whenever the counts of region 1 are not negative
  (\<^verbatim>\<open>en\<close>, and \<^verbatim>\<open>123en\<close> where \<^verbatim>\<open>en\<close> is not zero).
\<close>

theorem zero_123en_division_by_zero:
  "(0 < en fr1 \<and> n123en fr1 = 0 \<longrightarrow>
      estimate_fake_sum fr1 fr2 fr12s fr12en k = Inl ZeroDivisionError) \<and>
   (0 < en fr2 \<and> n123en fr2 = 0 \<longrightarrow>
      isl (estimate_fake_sum fr1 fr2 fr12s fr12en k) \<and>
      (0 \<le> en fr1 \<and> (en fr1 = 0 \<or> 0 \<le> n123en fr1) \<longrightarrow>
         estimate_fake_sum fr1 fr2 fr12s fr12en k = Inl ZeroDivisionError))"
proof (intro conjI impI)
  assume "0 < en fr1 \<and> n123en fr1 = 0"
  then have "compute_errors fr1 k = Inl ZeroDivisionError"
    by (simp add: compute_errors_raises(3))
  then show "estimate_fake_sum fr1 fr2 fr12s fr12en k = Inl ZeroDivisionError"
    by (rule estimate_fake_sum_propagates(1))
next
  assume h: "0 < en fr2 \<and> n123en fr2 = 0"
  then have 2: "compute_errors fr2 j = Inl ZeroDivisionError" for j
    by (simp add: compute_errors_raises(3))
  show "isl (estimate_fake_sum fr1 fr2 fr12s fr12en k)"
  proof (cases "compute_errors fr1 k")
    case (Inl e)
    then show ?thesis by (simp add: estimate_fake_sum_propagates(1))
  next
    case (Inr p)
    then obtain a k1 where "compute_errors fr1 k = Inr (a, k1)" by (cases p) simp
    then show ?thesis using 2 [of k1] by (simp add: estimate_fake_sum_propagates(2))
  qed
next
  assume h: "0 < en fr2 \<and> n123en fr2 = 0"
    and v: "0 \<le> en fr1 \<and> (en fr1 = 0 \<or> 0 \<le> n123en fr1)"
  from h have 2: "compute_errors fr2 j = Inl ZeroDivisionError" for j
    by (simp add: compute_errors_raises(3))
  consider "en fr1 = 0" | "0 < en fr1" "n123en fr1 = 0" | "0 < en fr1" "0 < n123en fr1"
    using v by linarith
  then show "estimate_fake_sum fr1 fr2 fr12s fr12en k = Inl ZeroDivisionError"
  proof cases
    case 1
    then show ?thesis
      using estimate_fake_sum_propagates(2) [OF compute_errors_zero [OF 1] 2] by simp
  next
    case 2
    then have "compute_errors fr1 k = Inl ZeroDivisionError"
      by (simp add: compute_errors_raises(3))
    then show ?thesis by (rule estimate_fake_sum_propagates(1))
  next
    case 3
    show ?thesis
      using estimate_fake_sum_propagates(2) [OF compute_errors_pos [OF 3] 2] by simp
  qed
qed

theorem zero_123en_division_by_zero_witness:
  "estimate_fake_sum \<lparr>en = 1, ewk_s = 1, qcd_s = 1, n123 = 1, n123en = 0\<rparr>
     \<lparr>en = 1, ewk_s = 1, qcd_s = 1, n123 = 1, n123en = 1\<rparr> 0 0 0 = Inl ZeroDivisionError \<and>
   estimate_fake_sum \<lparr>en = 1, ewk_s = 1, qcd_s = 1, n123 = 1, n123en = 1\<rparr>
     \<lparr>en = 1, ewk_s = 1, qcd_s = 1, n123 = 1, n123en = 0\<rparr> 0 0 0 = Inl ZeroDivisionError"
  using zero_123en_division_by_zero
      [of "\<lparr>en = 1, ewk_s = 1, qcd_s = 1, n123 = 1, n123en = 0\<rparr>"
          "\<lparr>en = 1, ewk_s = 1, qcd_s = 1, n123 = 1, n123en = 1\<rparr>" 0 0 0]
    zero_123en_division_by_zero
      [of "\<lparr>en = 1, ewk_s = 1, qcd_s = 1, n123 = 1, n123en = 1\<rparr>"
          "\<lparr>en = 1, ewk_s = 1, qcd_s = 1, n123 = 1, n123en = 0\<rparr>" 0 0 0]
  by simp

end
